theory Spec2Isabelle
  imports Main
begin

section \<open>JavaScript strings\<close>

text \<open>
  A JavaScript string is modelled as a \<open>string\<close> whose characters are the code units
  below 256. \<open>String.prototype.trim\<close> removes white space and line terminators from both
  ends; in that range these are TAB, LF, VT, FF, CR, SPACE and NBSP.
\<close>

definition is_ws :: "char \<Rightarrow> bool" where
  "is_ws c = (c \<in> set [CHR 0x09, CHR 0x0A, CHR 0x0B, CHR 0x0C, CHR 0x0D, CHR 0x20, CHR 0xA0])"

definition trim :: "string \<Rightarrow> string" where
  "trim s = rev (dropWhile is_ws (rev (dropWhile is_ws s)))"

text \<open>
  \<open>s.replace(pat, rep)\<close> with a string pattern replaces the first occurrence of \<open>pat\<close>
  only. The replacement is taken literally, as JavaScript does when it holds no \<open>$\<close>.
\<close>

fun replace :: "string \<Rightarrow> string \<Rightarrow> string \<Rightarrow> string" where
  "replace [] pat rep = (if pat = [] then rep else [])"
| "replace (c # cs) pat rep =
     (if take (length pat) (c # cs) = pat then rep @ drop (length pat) (c # cs)
      else c # replace cs pat rep)"

text \<open>\<open>sanitize(s) = s.trim().replace("_", "")\<close> (platform.ts, line 242).\<close>

definition sanitize :: "string \<Rightarrow> string" where
  "sanitize s = replace (trim s) ''_'' ''''"

text \<open>
  An optional string (\<open>None\<close> is \<open>undefined\<close>) is truthy when it is present and not empty.
\<close>

definition truthy :: "string option \<Rightarrow> bool" where
  "truthy v = (case v of None \<Rightarrow> False | Some s \<Rightarrow> s \<noteq> [])"

section \<open>Data\<close>

text \<open>
  Modelled from the spec: the type \<open>GoveeReading\<close> of the radio library is not part of the
  sources. The spec gives it an optional identity hint (\<open>uuid\<close>), an optional model hint
  (\<open>model\<close>) and an address that is always present. The sensor values it also carries are
  never read by platform.ts and are left out.
\<close>

record GoveeReading =
  uuid :: "string option"
  address :: string
  model :: "string option"

text \<open>\<open>DeviceContext\<close>, as the object literal of platform.ts (line 185) builds it.\<close>

record DeviceContext =
  ctx_address :: string
  ctx_model :: string
  ctx_uuid :: "string option"

text \<open>
  The host's persisted record: a \<open>PlatformAccessory\<close> with the three entries platform.ts
  keeps in its \<open>context\<close>. The two configuration numbers are only copied; \<open>None\<close> is
  \<open>undefined\<close>.
\<close>

record PlatformAccessory =
  displayName :: string
  UUID :: string
  context_device :: "DeviceContext option"
  context_batteryThreshold :: "int option"
  context_humidityOffset :: "int option"

record PlatformConfig =
  name :: string
  batteryThreshold :: "int option"
  debug :: bool
  humidityOffset :: "int option"
  scanDuration :: int
  cooldownDuration :: int
  IgnoreDeviceNames :: "string list"

datatype APIEvent = DID_FINISH_LAUNCHING | SHUTDOWN

text \<open>
  Modelled from the spec: the class \<open>GoveePlatformAccessory\<close> (platformAccessory.ts) is not
  part of the sources. The spec gives the Device Handler two entry points: the constructor,
  which binds a persisted record and an initial reading, and \<open>updateReading\<close>. The model
  records the arguments of both.
\<close>

record GoveePlatformAccessory =
  h_accessory :: PlatformAccessory
  h_reading :: GoveeReading
  h_updates :: "GoveeReading list"

definition new_GoveePlatformAccessory ::
  "PlatformAccessory \<Rightarrow> GoveeReading \<Rightarrow> GoveePlatformAccessory" where
  "new_GoveePlatformAccessory accessory reading =
     \<lparr>h_accessory = accessory, h_reading = reading, h_updates = []\<rparr>"

definition updateReading :: "GoveePlatformAccessory \<Rightarrow> GoveeReading \<Rightarrow> GoveePlatformAccessory" where
  "updateReading h reading = h\<lparr>h_updates := h_updates h @ [reading]\<rparr>"

section \<open>Collaborators\<close>

text \<open>
  Every call the platform makes to the logger, the radio library, the host and the Device
  Handler is recorded, in order, in a trace. The callbacks handed to the radio library are
  always the platform's own three methods, so they are not recorded as arguments.
\<close>

datatype log_level = LDebug | LInfo | LWarn | LError

datatype log_arg = AString string | ANumber int | AReading GoveeReading

datatype call =
    Log log_level string "log_arg list"
  | GoveeStartDiscovery
  | GoveeStopDiscovery
  | GoveeRegisterScanStart
  | GoveeRegisterScanStop
  | GoveeDebug bool
  | NewPlatformAccessory string string
  | UpdatePlatformAccessories "PlatformAccessory list"
  | RegisterPlatformAccessories "PlatformAccessory list"
  | NewGoveePlatformAccessory PlatformAccessory GoveeReading
  | UpdateReading string GoveeReading

text \<open>
  The three closures platform.ts hands to \<open>setTimeout\<close>: the scan-duration timer of
  \<open>startScanCycle\<close> (line 108), the cooldown timer (line 220) and the stall-recovery timer
  (line 230) of \<open>goveeScanStopped\<close>.
\<close>

datatype timer_callback = ScanDurationElapsed | CooldownElapsed | WaitIntervalElapsed

section \<open>The platform\<close>

text \<open>
  The fields of \<open>GoveeHomebridgePlatform\<close>, together with the two parts of its environment
  that its methods change: the timers that are armed and have not fired (delay and
  callback), and the trace of calls.
\<close>

record GoveeHomebridgePlatform =
  config :: PlatformConfig
  accessories :: "PlatformAccessory list"
  platformStatus :: "APIEvent option"
  isCooldown :: "bool option"
  discoveryCache :: "string \<Rightarrow> GoveePlatformAccessory option"
  timers :: "(int \<times> timer_callback) list"
  calls :: "call list"

datatype error = TypeError

definition emit :: "call list \<Rightarrow> GoveeHomebridgePlatform \<Rightarrow> GoveeHomebridgePlatform" where
  "emit cs this = this\<lparr>calls := calls this @ cs\<rparr>"

definition setTimeout ::
  "timer_callback \<Rightarrow> int \<Rightarrow> GoveeHomebridgePlatform \<Rightarrow> GoveeHomebridgePlatform" where
  "setTimeout cb delay this = this\<lparr>timers := timers this @ [(delay, cb)]\<rparr>"

text \<open>The constructor (line 42): the fields' initial values and one log line.\<close>

definition constructor :: "PlatformConfig \<Rightarrow> GoveeHomebridgePlatform" where
  "constructor cfg =
     \<lparr>config = cfg, accessories = [], platformStatus = None, isCooldown = None,
      discoveryCache = Map.empty, timers = [],
      calls = [Log LInfo ''Finished initializing platform:'' [AString (name cfg)]]\<rparr>"

definition configureAccessory ::
  "PlatformAccessory \<Rightarrow> GoveeHomebridgePlatform \<Rightarrow> GoveeHomebridgePlatform" where
  "configureAccessory accessory this =
     (let this = emit [Log LInfo ''Loading accessory from cache:'' [AString (displayName accessory)]] this
      in this\<lparr>accessories := accessories this @ [accessory]\<rparr>)"

definition startScanCycle :: "GoveeHomebridgePlatform \<Rightarrow> GoveeHomebridgePlatform" where
  "startScanCycle this =
     (let this = emit [GoveeStartDiscovery, GoveeRegisterScanStart, GoveeRegisterScanStop] this
      in if scanDuration (config this) > 0
         then setTimeout ScanDurationElapsed (scanDuration (config this))
                (emit [Log LDebug ''Stop scanning after '' [ANumber (scanDuration (config this))]] this)
         else this)"

definition discoverDevices :: "GoveeHomebridgePlatform \<Rightarrow> GoveeHomebridgePlatform" where
  "discoverDevices this =
     (let this = emit [Log LDebug ''Start discovery'' []] this;
          this = (if debug (config this) then emit [GoveeDebug True] this else this)
      in startScanCycle this)"

text \<open>The listeners of the host's two lifecycle events (lines 53 and 64).\<close>

definition didFinishLaunching :: "GoveeHomebridgePlatform \<Rightarrow> GoveeHomebridgePlatform" where
  "didFinishLaunching this =
     (let this = emit [Log LDebug ''Executed didFinishLaunching callback'' []] this;
          this = this\<lparr>platformStatus := Some DID_FINISH_LAUNCHING\<rparr>;
          this = this\<lparr>isCooldown := Some False\<rparr>
      in discoverDevices this)"

definition shutdown :: "GoveeHomebridgePlatform \<Rightarrow> GoveeHomebridgePlatform" where
  "shutdown this = this\<lparr>platformStatus := Some SHUTDOWN\<rparr>"

subsection \<open>Routing a reading\<close>

text \<open>
  Lines 119 to 122: the value of \<open>deviceUniqueId\<close> when line 124 tests it.
\<close>

definition deviceUniqueId :: "GoveeReading \<Rightarrow> string option" where
  "deviceUniqueId reading = (if truthy (model reading) then model reading else uuid reading)"

text \<open>
  Lines 119 to 137, the Device Identity Resolver: the reading is rejected when
  \<open>deviceUniqueId\<close> is falsy, and its key is otherwise what the host's
  \<open>hap.uuid.generate\<close> makes of it. That function is the host's; it is the parameter
  \<open>generate\<close>.
\<close>

datatype resolution = Rejected | IdentityKey string

definition resolve :: "(string \<Rightarrow> string) \<Rightarrow> GoveeReading \<Rightarrow> resolution" where
  "resolve generate reading =
     (case deviceUniqueId reading of
        None \<Rightarrow> Rejected
      | Some seed \<Rightarrow> if seed = [] then Rejected else IdentityKey (generate seed))"

text \<open>
  \<open>goveeDiscoveredReading\<close> (line 116). In the branch that creates an accessory,
  \<open>this.sanitize(reading.model)\<close> calls \<open>trim\<close> on \<open>undefined\<close> when the reading has no
  model: a TypeError, raised before anything but the first log line has happened.
\<close>

definition goveeDiscoveredReading ::
  "(string \<Rightarrow> string) \<Rightarrow> GoveeReading \<Rightarrow> GoveeHomebridgePlatform
     \<Rightarrow> error + GoveeHomebridgePlatform" where
  "goveeDiscoveredReading generate reading this0 =
     (let this = emit [Log LDebug ''Govee reading'' [AReading reading]] this0 in
      case resolve generate reading of
        Rejected \<Rightarrow>
          Inr (emit [Log LError ''device missing unique identifier. Govee reading: ''
                       [AReading reading]] this)
      | IdentityKey key \<Rightarrow>
          (let existingAccessory = find (\<lambda>accessory. UUID accessory = key) (accessories this) in
           case discoveryCache this key of
             Some cachedInstance \<Rightarrow>
               Inr ((emit [UpdateReading key reading] this)
                      \<lparr>discoveryCache :=
                         (discoveryCache this)(key \<mapsto> updateReading cachedInstance reading)\<rparr>)
           | None \<Rightarrow>
               (case existingAccessory of
                  Some existing \<Rightarrow>
                    (let this = emit [Log LInfo ''Restoring existing accessory from cache:''
                                        [AString (displayName existing)]] this;
                         refreshed = existing
                           \<lparr>context_batteryThreshold := batteryThreshold (config this),
                            context_humidityOffset := humidityOffset (config this)\<rparr>;
                         this = this\<lparr>accessories :=
                           (accessories this)
                             [length (takeWhile (\<lambda>accessory. UUID accessory \<noteq> key) (accessories this))
                                := refreshed]\<rparr>;
                         this = emit [UpdatePlatformAccessories [refreshed]] this;
                         existingInstance = new_GoveePlatformAccessory refreshed reading;
                         this = emit [NewGoveePlatformAccessory refreshed reading] this
                     in Inr (this\<lparr>discoveryCache :=
                                    (discoveryCache this)(key \<mapsto> existingInstance)\<rparr>))
                | None \<Rightarrow>
                    (case model reading of
                       None \<Rightarrow> Inl TypeError
                     | Some m \<Rightarrow>
                         (let displayName = sanitize m;
                              this = emit [Log LInfo ''Adding new accessory:''
                                             [AString displayName]] this;
                              this = emit [NewPlatformAccessory displayName key] this;
                              contextDevice =
                                \<lparr>ctx_address = sanitize (address reading),
                                 ctx_model = sanitize m,
                                 ctx_uuid = uuid reading\<rparr>;
                              accessory =
                                \<lparr>displayName = displayName, UUID = key,
                                 context_device = Some contextDevice,
                                 context_batteryThreshold = batteryThreshold (config this),
                                 context_humidityOffset = humidityOffset (config this)\<rparr>;
                              newInstance = new_GoveePlatformAccessory accessory reading;
                              this = emit [NewGoveePlatformAccessory accessory reading] this;
                              this = emit [RegisterPlatformAccessories [accessory]] this
                          in Inr (this\<lparr>discoveryCache :=
                                         (discoveryCache this)(key \<mapsto> newInstance)\<rparr>))))))"

subsection \<open>The scan cycle\<close>

definition goveeScanStarted :: "GoveeHomebridgePlatform \<Rightarrow> GoveeHomebridgePlatform" where
  "goveeScanStarted this = emit [Log LInfo ''Govee Scan Started'' []] this"

text \<open>
  The test of lines 214 and 231: the platform is not running before the host has finished
  launching and after its shutdown event.
\<close>

definition notRunning :: "GoveeHomebridgePlatform \<Rightarrow> bool" where
  "notRunning this = (platformStatus this = None \<or> platformStatus this = Some SHUTDOWN)"

definition WAIT_INTERVAL :: int where
  "WAIT_INTERVAL = 5000"

definition goveeScanStopped :: "GoveeHomebridgePlatform \<Rightarrow> GoveeHomebridgePlatform" where
  "goveeScanStopped this0 =
     (let this = emit [Log LInfo ''Govee Scan Stopped'' []] this0 in
      if notRunning this then this
      else if isCooldown this = Some True
        then setTimeout CooldownElapsed (cooldownDuration (config this))
               (emit [Log LDebug ''Cooldown started'' []] this)
      else setTimeout WaitIntervalElapsed WAIT_INTERVAL this)"

text \<open>What each timer's closure does when it fires.\<close>

fun fire :: "timer_callback \<Rightarrow> GoveeHomebridgePlatform \<Rightarrow> GoveeHomebridgePlatform" where
  "fire ScanDurationElapsed this =
     emit [Log LDebug ''Start cooldown for '' [ANumber (cooldownDuration (config this))],
           GoveeStopDiscovery]
       (this\<lparr>isCooldown := Some True\<rparr>)"
| "fire CooldownElapsed this = startScanCycle (this\<lparr>isCooldown := Some False\<rparr>)"
| "fire WaitIntervalElapsed this =
     (if notRunning this then this
      else emit [Log LWarn ''Govee discovery stopped while Homebridge is running.'' [],
                 Log LInfo ''Restart Discovery'' [],
                 GoveeStartDiscovery] this)"

subsection \<open>The event loop\<close>

text \<open>
  Everything happens on one thread, one event at a time: a lifecycle event of the host, a
  restored accessory, a callback of the radio library, or a timer that fires.
  \<open>TimerFired i\<close> fires the \<open>i\<close>-th timer that is armed. An exception ends the run.
\<close>

datatype event =
    DidFinishLaunching
  | Shutdown
  | ConfigureAccessory PlatformAccessory
  | Reading GoveeReading
  | ScanStarted
  | ScanStopped
  | TimerFired nat

fun step ::
  "(string \<Rightarrow> string) \<Rightarrow> event \<Rightarrow> GoveeHomebridgePlatform \<Rightarrow> error + GoveeHomebridgePlatform" where
  "step generate DidFinishLaunching this = Inr (didFinishLaunching this)"
| "step generate Shutdown this = Inr (shutdown this)"
| "step generate (ConfigureAccessory accessory) this = Inr (configureAccessory accessory this)"
| "step generate (Reading reading) this = goveeDiscoveredReading generate reading this"
| "step generate ScanStarted this = Inr (goveeScanStarted this)"
| "step generate ScanStopped this = Inr (goveeScanStopped this)"
| "step generate (TimerFired i) this =
     (if i < length (timers this)
      then Inr (fire (snd (timers this ! i))
                  (this\<lparr>timers := take i (timers this) @ drop (Suc i) (timers this)\<rparr>))
      else Inr this)"

fun run ::
  "(string \<Rightarrow> string) \<Rightarrow> event list \<Rightarrow> GoveeHomebridgePlatform \<Rightarrow> error + GoveeHomebridgePlatform" where
  "run generate [] this = Inr this"
| "run generate (e # es) this =
     (case step generate e this of Inl err \<Rightarrow> Inl err | Inr this' \<Rightarrow> run generate es this')"

text \<open>How many Device Handlers have been constructed for a key, read off the trace.\<close>

definition handlersBuilt :: "string \<Rightarrow> call list \<Rightarrow> nat" where
  "handlersBuilt key cs =
     length (filter (\<lambda>c. case c of NewGoveePlatformAccessory a r \<Rightarrow> UUID a = key | _ \<Rightarrow> False) cs)"

text \<open>
  The trace and the cache agree: a handler has been constructed once for every key in the
  cache, and never for any other key.
\<close>

definition oneHandlerPerKey :: "GoveeHomebridgePlatform \<Rightarrow> bool" where
  "oneHandlerPerKey this =
     (\<forall>key. handlersBuilt key (calls this) = (if discoveryCache this key = None then 0 else 1))"

text \<open>
  What holds throughout when the scan duration is 0: no timer but the stall-recovery timer
  is armed, no cooldown is pending, and the radio has never been asked to stop.
\<close>

definition continuousScan :: "GoveeHomebridgePlatform \<Rightarrow> bool" where
  "continuousScan this =
     (scanDuration (config this) = 0
      \<and> list_all (\<lambda>t. snd t = WaitIntervalElapsed) (timers this)
      \<and> isCooldown this \<noteq> Some True
      \<and> GoveeStopDiscovery \<notin> set (calls this))"

section \<open>Strings\<close>

lemma replace_underscore: "replace s ''_'' '''' = remove1 (CHR ''_'') s"
  by (induction s) auto

lemma sanitize_remove1: "sanitize s = remove1 (CHR ''_'') (trim s)"
  by (simp add: sanitize_def replace_underscore)

lemma last_dropWhile_keep:
  "dropWhile P xs \<noteq> [] \<Longrightarrow> last (dropWhile P xs) = last xs"
  by (induction xs) (auto split: if_splits)

lemma trim_ends:
  assumes "trim s \<noteq> []"
  shows "\<not> is_ws (hd (trim s))" and "\<not> is_ws (last (trim s))"
proof -
  let ?d = "dropWhile is_ws s"
  let ?e = "dropWhile is_ws (rev ?d)"
  from assms have e: "?e \<noteq> []" by (simp add: trim_def)
  then have "rev ?d \<noteq> []" by (metis dropWhile.simps(1))
  then have d: "?d \<noteq> []" by simp
  have "hd (trim s) = last ?e" by (simp add: trim_def hd_rev)
  also have "\<dots> = last (rev ?d)" using e by (rule last_dropWhile_keep)
  also have "\<dots> = hd ?d" by (simp add: last_rev)
  finally show "\<not> is_ws (hd (trim s))" using hd_dropWhile [OF d] by simp
  have "last (trim s) = hd ?e" by (simp add: trim_def last_rev)
  then show "\<not> is_ws (last (trim s))" using hd_dropWhile [OF e] by simp
qed

lemma trim_fixed:
  assumes "t = [] \<or> (\<not> is_ws (hd t) \<and> \<not> is_ws (last t))"
  shows "trim t = t"
proof (cases "t = []")
  case True
  then show ?thesis by (simp add: trim_def)
next
  case False
  with assms have h: "\<not> is_ws (hd t)" and l: "\<not> is_ws (last t)" by auto
  from h have 1: "dropWhile is_ws t = t" by (simp add: dropWhile_eq_self_iff)
  from l have 2: "dropWhile is_ws (rev t) = rev t" by (simp add: dropWhile_eq_self_iff hd_rev)
  show ?thesis by (simp add: trim_def 1 2)
qed

lemma trim_idem: "trim (trim s) = trim s"
  using trim_ends [of s] by (intro trim_fixed) blast

lemma count_list_dropWhile_le: "count_list (dropWhile P xs) c \<le> count_list xs c"
  by (induction xs) auto

lemma count_list_trim_le: "count_list (trim s) c \<le> count_list s c"
proof -
  let ?d = "dropWhile is_ws s"
  have "count_list (trim s) c = count_list (dropWhile is_ws (rev ?d)) c"
    by (simp add: trim_def)
  also have "\<dots> \<le> count_list (rev ?d) c" by (rule count_list_dropWhile_le)
  also have "\<dots> = count_list ?d c" by simp
  also have "\<dots> \<le> count_list s c" by (rule count_list_dropWhile_le)
  finally show ?thesis .
qed

lemma remove1_filter_once:
  "count_list t c \<le> 1 \<Longrightarrow> remove1 c t = filter (\<lambda>x. x \<noteq> c) t"
proof (induction t)
  case Nil
  show ?case by simp
next
  case (Cons a t)
  show ?case
  proof (cases "a = c")
    case True
    with Cons.prems have "c \<notin> set t" by (simp add: count_list_0_iff)
    then have "filter (\<lambda>x. x \<noteq> c) t = t" by (auto simp: filter_id_conv)
    with True show ?thesis by simp
  next
    case False
    with Cons show ?thesis by simp
  qed
qed

lemma remove1_keeps_ends:
  assumes "t \<noteq> []" "take 1 t \<noteq> [c]" "take 1 (rev t) \<noteq> [c]"
  shows "remove1 c t \<noteq> []" "hd (remove1 c t) = hd t" "last (remove1 c t) = last t"
proof -
  from assms obtain x t' where t: "t = x # t'" and x: "x \<noteq> c" by (cases t) auto
  then show "remove1 c t \<noteq> []" "hd (remove1 c t) = hd t" by auto
  from assms have l: "last t \<noteq> c" by (cases t rule: rev_cases) auto
  have "xs \<noteq> [] \<Longrightarrow> last xs \<noteq> c \<Longrightarrow> last (remove1 c xs) = last xs \<and> remove1 c xs \<noteq> []" for xs
    by (induction xs) auto
  with assms(1) l show "last (remove1 c t) = last t" by blast
qed

lemma sanitize_fixed:
  assumes "count_list s (CHR ''_'') \<le> 1"
    and "take 1 (trim s) \<noteq> ''_''" and "take 1 (rev (trim s)) \<noteq> ''_''"
  shows "sanitize s = filter (\<lambda>c. c \<noteq> CHR ''_'') (trim s)"
    and "trim (sanitize s) = sanitize s"
    and "sanitize (sanitize s) = sanitize s"
proof -
  let ?t = "trim s"
  have c: "count_list ?t (CHR ''_'') \<le> 1"
    using count_list_trim_le [of s "CHR ''_''"] assms(1) by simp
  show f: "sanitize s = filter (\<lambda>c. c \<noteq> CHR ''_'') ?t"
    by (simp add: sanitize_remove1 remove1_filter_once [OF c])
  show tr: "trim (sanitize s) = sanitize s"
  proof (cases "?t = []")
    case True
    show ?thesis unfolding sanitize_remove1 True by (simp add: trim_def)
  next
    case False
    from remove1_keeps_ends [OF False assms(2) assms(3)] trim_ends [OF False]
    show ?thesis by (intro trim_fixed) (simp add: sanitize_remove1)
  qed
  have "CHR ''_'' \<notin> set (sanitize s)" by (simp add: f)
  then show "sanitize (sanitize s) = sanitize s"
    by (simp add: sanitize_remove1 [of "sanitize s"] tr remove1_idem)
qed

lemma is_ws_underscore: "\<not> is_ws (CHR ''_'')" by (simp add: is_ws_def)

section \<open>The outcomes of routing\<close>

lemma routed_rejected:
  assumes "resolve generate reading = Rejected"
  shows "goveeDiscoveredReading generate reading this =
     Inr (this\<lparr>calls := calls this @
       [Log LDebug ''Govee reading'' [AReading reading],
        Log LError ''device missing unique identifier. Govee reading: '' [AReading reading]]\<rparr>)"
  using assms by (simp add: goveeDiscoveredReading_def emit_def Let_def)

lemma routed_updated:
  assumes "resolve generate reading = IdentityKey key"
    and "discoveryCache this key = Some h"
  shows "goveeDiscoveredReading generate reading this =
     Inr (this\<lparr>discoveryCache := (discoveryCache this)(key \<mapsto> updateReading h reading),
              calls := calls this @
                [Log LDebug ''Govee reading'' [AReading reading], UpdateReading key reading]\<rparr>)"
  using assms by (simp add: goveeDiscoveredReading_def emit_def Let_def)

lemma routed_restored:
  assumes "resolve generate reading = IdentityKey key"
    and "discoveryCache this key = None"
    and "find (\<lambda>a. UUID a = key) (accessories this) = Some existing"
    and "refreshed = existing\<lparr>context_batteryThreshold := batteryThreshold (config this),
                              context_humidityOffset := humidityOffset (config this)\<rparr>"
  shows "goveeDiscoveredReading generate reading this =
     Inr (this\<lparr>accessories := (accessories this)
                [length (takeWhile (\<lambda>a. UUID a \<noteq> key) (accessories this)) := refreshed],
              discoveryCache :=
                (discoveryCache this)(key \<mapsto> new_GoveePlatformAccessory refreshed reading),
              calls := calls this @
                [Log LDebug ''Govee reading'' [AReading reading],
                 Log LInfo ''Restoring existing accessory from cache:''
                   [AString (displayName existing)],
                 UpdatePlatformAccessories [refreshed],
                 NewGoveePlatformAccessory refreshed reading]\<rparr>)"
  using assms by (simp add: goveeDiscoveredReading_def emit_def Let_def)

lemma routed_created:
  assumes "resolve generate reading = IdentityKey key"
    and "discoveryCache this key = None"
    and "find (\<lambda>a. UUID a = key) (accessories this) = None"
    and "model reading = Some m"
    and "accessory = \<lparr>displayName = sanitize m, UUID = key,
           context_device = Some \<lparr>ctx_address = sanitize (address reading),
                                   ctx_model = sanitize m, ctx_uuid = uuid reading\<rparr>,
           context_batteryThreshold = batteryThreshold (config this),
           context_humidityOffset = humidityOffset (config this)\<rparr>"
  shows "goveeDiscoveredReading generate reading this =
     Inr (this\<lparr>discoveryCache :=
                (discoveryCache this)(key \<mapsto> new_GoveePlatformAccessory accessory reading),
              calls := calls this @
                [Log LDebug ''Govee reading'' [AReading reading],
                 Log LInfo ''Adding new accessory:'' [AString (sanitize m)],
                 NewPlatformAccessory (sanitize m) key,
                 NewGoveePlatformAccessory accessory reading,
                 RegisterPlatformAccessories [accessory]]\<rparr>)"
  using assms by (simp add: goveeDiscoveredReading_def emit_def Let_def)

lemma routed_type_error:
  assumes "resolve generate reading = IdentityKey key"
    and "discoveryCache this key = None"
    and "find (\<lambda>a. UUID a = key) (accessories this) = None"
    and "model reading = None"
  shows "goveeDiscoveredReading generate reading this = Inl TypeError"
  using assms by (simp add: goveeDiscoveredReading_def emit_def Let_def)

lemma find_first_index:
  assumes "find P xs = Some x"
  shows "length (takeWhile (\<lambda>a. \<not> P a) xs) < length xs"
    and "xs ! length (takeWhile (\<lambda>a. \<not> P a) xs) = x"
    and "P x"
  using assms by (induction xs) (auto split: if_splits)

lemma find_update_first:
  assumes "find P xs = Some x" and "P y"
  shows "find P (xs[length (takeWhile (\<lambda>a. \<not> P a) xs) := y]) = Some y"
  using assms by (induction xs) (auto split: if_splits)

section \<open>What the methods change\<close>

lemma handlersBuilt_append:
  "handlersBuilt key (xs @ ys) = handlersBuilt key xs + handlersBuilt key ys"
  by (simp add: handlersBuilt_def)

lemma routing_frame:
  assumes "goveeDiscoveredReading generate reading this = Inr this'"
  shows "config this' = config this" and "timers this' = timers this"
    and "isCooldown this' = isCooldown this" and "platformStatus this' = platformStatus this"
    and "GoveeStopDiscovery \<in> set (calls this') \<longleftrightarrow> GoveeStopDiscovery \<in> set (calls this)"
  using assms
  by (auto simp: goveeDiscoveredReading_def emit_def Let_def
      split: resolution.splits option.splits)

lemma invariant_kept:
  assumes "oneHandlerPerKey this"
    and "\<And>k. handlersBuilt k (calls this') = handlersBuilt k (calls this)"
    and "\<And>k. discoveryCache this' k = None \<longleftrightarrow> discoveryCache this k = None"
  shows "oneHandlerPerKey this'"
  using assms by (simp add: oneHandlerPerKey_def)

lemma invariant_extended:
  assumes "oneHandlerPerKey this" and "discoveryCache this key = None"
    and "\<And>k. handlersBuilt k (calls this') =
           handlersBuilt k (calls this) + (if k = key then 1 else 0)"
    and "\<And>k. discoveryCache this' k = None \<longleftrightarrow> k \<noteq> key \<and> discoveryCache this k = None"
  shows "oneHandlerPerKey this'"
  using assms by (simp add: oneHandlerPerKey_def)

lemma routing_keeps_invariant:
  assumes "goveeDiscoveredReading generate reading this = Inr this'"
    and "oneHandlerPerKey this"
  shows "oneHandlerPerKey this'"
proof (cases "resolve generate reading")
  case Rejected
  from assms(1) routed_rejected [OF Rejected, of this]
  have "this' = this\<lparr>calls := calls this @
       [Log LDebug ''Govee reading'' [AReading reading],
        Log LError ''device missing unique identifier. Govee reading: '' [AReading reading]]\<rparr>"
    by simp
  then show ?thesis
    by (intro invariant_kept [OF assms(2)]) (simp_all add: handlersBuilt_def)
next
  case (IdentityKey key)
  show ?thesis
  proof (cases "discoveryCache this key")
    case (Some h)
    from assms(1) routed_updated [OF IdentityKey Some]
    have "this' = this\<lparr>discoveryCache := (discoveryCache this)(key \<mapsto> updateReading h reading),
              calls := calls this @
                [Log LDebug ''Govee reading'' [AReading reading], UpdateReading key reading]\<rparr>"
      by simp
    with Some show ?thesis
      by (intro invariant_kept [OF assms(2)]) (simp_all add: handlersBuilt_def)
  next
    case None
    note absent = this
    show ?thesis
    proof (cases "find (\<lambda>a. UUID a = key) (accessories this)")
      case (Some existing)
      from find_first_index(3) [OF Some] have u: "UUID existing = key" .
      from assms(1) routed_restored [OF IdentityKey absent Some refl]
      have "calls this' = calls this @
                [Log LDebug ''Govee reading'' [AReading reading],
                 Log LInfo ''Restoring existing accessory from cache:''
                   [AString (displayName existing)],
                 UpdatePlatformAccessories [existing\<lparr>context_batteryThreshold := batteryThreshold (config this),
                              context_humidityOffset := humidityOffset (config this)\<rparr>],
                 NewGoveePlatformAccessory (existing\<lparr>context_batteryThreshold := batteryThreshold (config this),
                              context_humidityOffset := humidityOffset (config this)\<rparr>) reading]"
        and "discoveryCache this' = (discoveryCache this)(key \<mapsto> new_GoveePlatformAccessory (existing\<lparr>context_batteryThreshold := batteryThreshold (config this),
                              context_humidityOffset := humidityOffset (config this)\<rparr>) reading)"
        by auto
      with u show ?thesis
        by (intro invariant_extended [OF assms(2) absent]) (simp_all add: handlersBuilt_def)
    next
      case None
      show ?thesis
      proof (cases "model reading")
        case (Some m)
        from assms(1) routed_created [OF IdentityKey absent None Some refl]
        have "\<exists>accessory. UUID accessory = key \<and> calls this' = calls this @
                [Log LDebug ''Govee reading'' [AReading reading],
                 Log LInfo ''Adding new accessory:'' [AString (sanitize m)],
                 NewPlatformAccessory (sanitize m) key,
                 NewGoveePlatformAccessory accessory reading,
                 RegisterPlatformAccessories [accessory]]
              \<and> discoveryCache this' =
                (discoveryCache this)(key \<mapsto> new_GoveePlatformAccessory accessory reading)"
          by auto
        then show ?thesis
          by (intro invariant_extended [OF assms(2) absent])
            (auto simp: handlersBuilt_def split: if_splits)
      next
        case None': None
        from assms(1) routed_type_error [OF IdentityKey absent None None'] show ?thesis by simp
      qed
    qed
  qed
qed

lemma routing_caches_key:
  assumes "goveeDiscoveredReading generate reading this = Inr this'"
    and "resolve generate reading = IdentityKey key"
  shows "discoveryCache this' key \<noteq> None"
  using assms
  by (auto simp: goveeDiscoveredReading_def emit_def Let_def split: option.splits)

lemma routing_keeps_cached:
  assumes "goveeDiscoveredReading generate reading this = Inr this'"
    and "discoveryCache this key \<noteq> None"
  shows "discoveryCache this' key \<noteq> None"
  using assms
  by (auto simp: goveeDiscoveredReading_def emit_def Let_def
      split: resolution.splits option.splits if_splits)

lemma emit_sel:
  "calls (emit cs this) = calls this @ cs"
  "config (emit cs this) = config this"
  "accessories (emit cs this) = accessories this"
  "platformStatus (emit cs this) = platformStatus this"
  "isCooldown (emit cs this) = isCooldown this"
  "discoveryCache (emit cs this) = discoveryCache this"
  "timers (emit cs this) = timers this"
  by (simp_all add: emit_def)

lemma setTimeout_sel:
  "timers (setTimeout cb d this) = timers this @ [(d, cb)]"
  "calls (setTimeout cb d this) = calls this"
  "config (setTimeout cb d this) = config this"
  "accessories (setTimeout cb d this) = accessories this"
  "platformStatus (setTimeout cb d this) = platformStatus this"
  "isCooldown (setTimeout cb d this) = isCooldown this"
  "discoveryCache (setTimeout cb d this) = discoveryCache this"
  by (simp_all add: setTimeout_def)

lemma notRunning_emit: "notRunning (emit cs this) = notRunning this"
  by (simp add: notRunning_def emit_sel)

lemma startScanCycle_sel:
  "config (startScanCycle this) = config this"
  "accessories (startScanCycle this) = accessories this"
  "platformStatus (startScanCycle this) = platformStatus this"
  "isCooldown (startScanCycle this) = isCooldown this"
  "discoveryCache (startScanCycle this) = discoveryCache this"
  "calls (startScanCycle this) = calls this @
     [GoveeStartDiscovery, GoveeRegisterScanStart, GoveeRegisterScanStop] @
     (if scanDuration (config this) > 0
      then [Log LDebug ''Stop scanning after '' [ANumber (scanDuration (config this))]] else [])"
  "timers (startScanCycle this) = timers this @
     (if scanDuration (config this) > 0
      then [(scanDuration (config this), ScanDurationElapsed)] else [])"
  by (simp_all add: startScanCycle_def Let_def emit_sel setTimeout_sel)

lemma didFinishLaunching_sel:
  "config (didFinishLaunching this) = config this"
  "accessories (didFinishLaunching this) = accessories this"
  "platformStatus (didFinishLaunching this) = Some DID_FINISH_LAUNCHING"
  "isCooldown (didFinishLaunching this) = Some False"
  "discoveryCache (didFinishLaunching this) = discoveryCache this"
  "calls (didFinishLaunching this) = calls this @
     [Log LDebug ''Executed didFinishLaunching callback'' [], Log LDebug ''Start discovery'' []] @
     (if debug (config this) then [GoveeDebug True] else []) @
     [GoveeStartDiscovery, GoveeRegisterScanStart, GoveeRegisterScanStop] @
     (if scanDuration (config this) > 0
      then [Log LDebug ''Stop scanning after '' [ANumber (scanDuration (config this))]] else [])"
  "timers (didFinishLaunching this) = timers this @
     (if scanDuration (config this) > 0
      then [(scanDuration (config this), ScanDurationElapsed)] else [])"
  by (simp_all add: didFinishLaunching_def discoverDevices_def Let_def startScanCycle_sel emit_sel)

lemma goveeScanStopped_sel:
  "config (goveeScanStopped this) = config this"
  "accessories (goveeScanStopped this) = accessories this"
  "platformStatus (goveeScanStopped this) = platformStatus this"
  "isCooldown (goveeScanStopped this) = isCooldown this"
  "discoveryCache (goveeScanStopped this) = discoveryCache this"
  "calls (goveeScanStopped this) = calls this @ [Log LInfo ''Govee Scan Stopped'' []] @
     (if \<not> notRunning this \<and> isCooldown this = Some True
      then [Log LDebug ''Cooldown started'' []] else [])"
  "timers (goveeScanStopped this) = timers this @
     (if notRunning this then []
      else if isCooldown this = Some True then [(cooldownDuration (config this), CooldownElapsed)]
      else [(WAIT_INTERVAL, WaitIntervalElapsed)])"
  by (simp_all add: goveeScanStopped_def Let_def notRunning_emit emit_sel setTimeout_sel)

lemma fire_sel:
  "config (fire cb this) = config this"
  "accessories (fire cb this) = accessories this"
  "discoveryCache (fire cb this) = discoveryCache this"
  by (cases cb; simp add: startScanCycle_sel emit_sel)+

lemma fire_builds_no_handler:
  "handlersBuilt key (calls (fire cb this)) = handlersBuilt key (calls this)"
  by (cases cb) (simp_all add: startScanCycle_sel emit_sel handlersBuilt_def)

lemma step_keeps_invariant:
  assumes "step generate e this = Inr this'" and "oneHandlerPerKey this"
  shows "oneHandlerPerKey this'"
proof (cases e)
  case (Reading reading)
  with assms show ?thesis by (auto intro: routing_keeps_invariant)
next
  case (TimerFired i)
  with assms(1) have "this' = this \<or> this' = fire (snd (timers this ! i))
      (this\<lparr>timers := take i (timers this) @ drop (Suc i) (timers this)\<rparr>)"
    by (auto split: if_splits)
  then show ?thesis
    by (intro invariant_kept [OF assms(2)]) (auto simp: fire_sel fire_builds_no_handler)
qed (use assms(1) in \<open>auto intro!: invariant_kept [OF assms(2)]
      simp: didFinishLaunching_sel goveeScanStopped_sel shutdown_def configureAccessory_def
        goveeScanStarted_def emit_sel Let_def handlersBuilt_def\<close>)

lemma step_keeps_cached:
  assumes "step generate e this = Inr this'" and "discoveryCache this key \<noteq> None"
  shows "discoveryCache this' key \<noteq> None"
proof (cases e)
  case (Reading reading)
  with assms show ?thesis by (auto dest: routing_keeps_cached)
next
  case (TimerFired i)
  with assms show ?thesis by (auto simp: fire_sel split: if_splits)
qed (use assms in \<open>auto simp: didFinishLaunching_sel goveeScanStopped_sel shutdown_def
      configureAccessory_def goveeScanStarted_def emit_sel Let_def\<close>)

lemma run_keeps_invariant:
  assumes "run generate es this = Inr this'" and "oneHandlerPerKey this"
  shows "oneHandlerPerKey this'"
  using assms
proof (induction es arbitrary: this)
  case Nil
  then show ?case by simp
next
  case (Cons e es)
  then show ?case by (auto split: sum.splits dest: step_keeps_invariant)
qed

lemma run_keeps_cached:
  assumes "run generate es this = Inr this'" and "discoveryCache this key \<noteq> None"
  shows "discoveryCache this' key \<noteq> None"
  using assms
proof (induction es arbitrary: this)
  case Nil
  then show ?case by simp
next
  case (Cons e es)
  then show ?case by (auto split: sum.splits dest: step_keeps_cached)
qed

lemma constructor_invariant: "oneHandlerPerKey (constructor cfg)"
  by (simp add: oneHandlerPerKey_def constructor_def handlersBuilt_def)

lemma continuousScan_constructor:
  "scanDuration cfg = 0 \<Longrightarrow> continuousScan (constructor cfg)"
  by (simp add: continuousScan_def constructor_def)

lemma continuousScan_fire:
  assumes "continuousScan this" and "i < length (timers this)"
  shows "continuousScan (fire (snd (timers this ! i))
           (this\<lparr>timers := take i (timers this) @ drop (Suc i) (timers this)\<rparr>))"
proof -
  from assms have cb: "snd (timers this ! i) = WaitIntervalElapsed"
    by (simp add: continuousScan_def list_all_length)
  from assms(1) have "list_all (\<lambda>t. snd t = WaitIntervalElapsed)
      (take i (timers this) @ drop (Suc i) (timers this))"
    by (auto simp: continuousScan_def list_all_iff dest: in_set_takeD in_set_dropD)
  with assms(1) show ?thesis
    unfolding cb by (auto simp: continuousScan_def emit_sel)
qed

lemma continuousScan_step:
  assumes "step generate e this = Inr this'" and "continuousScan this"
  shows "continuousScan this'"
proof (cases e)
  case DidFinishLaunching
  with assms show ?thesis by (auto simp: continuousScan_def didFinishLaunching_sel)
next
  case Shutdown
  with assms show ?thesis by (auto simp: continuousScan_def shutdown_def)
next
  case (ConfigureAccessory a)
  with assms show ?thesis by (auto simp: continuousScan_def configureAccessory_def emit_def)
next
  case (Reading r)
  with assms(1) have "goveeDiscoveredReading generate r this = Inr this'" by simp
  from routing_frame [OF this] assms(2) show ?thesis by (simp add: continuousScan_def)
next
  case ScanStarted
  with assms show ?thesis by (auto simp: continuousScan_def goveeScanStarted_def emit_def)
next
  case ScanStopped
  with assms show ?thesis by (auto simp: continuousScan_def goveeScanStopped_sel)
next
  case (TimerFired i)
  with assms continuousScan_fire [OF assms(2), of i] show ?thesis
    by (auto split: if_splits)
qed

lemma continuousScan_run:
  assumes "run generate es this = Inr this'" and "continuousScan this"
  shows "continuousScan this'"
  using assms
proof (induction es arbitrary: this)
  case Nil
  then show ?case by simp
next
  case (Cons e es)
  then show ?case by (auto split: sum.splits dest: continuousScan_step)
qed

text \<open>The definitions that evaluate the model on a concrete input.\<close>

lemmas eval_defs =
  constructor_def didFinishLaunching_def discoverDevices_def startScanCycle_def shutdown_def
  configureAccessory_def goveeScanStarted_def goveeScanStopped_def emit_def setTimeout_def
  goveeDiscoveredReading_def resolve_def deviceUniqueId_def truthy_def notRunning_def
  new_GoveePlatformAccessory_def updateReading_def handlersBuilt_def WAIT_INTERVAL_def
  sanitize_def trim_def is_ws_def Let_def

text \<open>
  Two model hints that \<open>generate\<close> tells apart get a handler each, whatever else
  \<open>generate\<close> does.
\<close>

lemma two_raw_hints_two_handlers:
  assumes "generate m1 \<noteq> generate m2" and "m1 \<noteq> []" and "m2 \<noteq> []"
  shows "case run generate
           [Reading \<lparr>uuid = u1, address = a1, model = Some m1\<rparr>,
            Reading \<lparr>uuid = u2, address = a2, model = Some m2\<rparr>] (constructor cfg) of
           Inl e \<Rightarrow> False
         | Inr this \<Rightarrow>
             handlersBuilt (generate m1) (calls this) = 1
             \<and> handlersBuilt (generate m2) (calls this) = 1"
  using assms by (simp add: eval_defs)

section \<open>Claims\<close>

subsection \<open>C1: which hint makes the identity key\<close>

text \<open>
  Claim C1, as amended. The resolver takes the model hint when it is present and not
  empty, also when the identity hint is present; it takes the identity hint only when the
  model hint is absent or empty; it rejects the reading when both are absent or empty. The
  hint goes to the host's \<open>generate\<close> as it is, not normalized.
\<close>

theorem resolver_prefers_model_hint:
  "resolve generate reading =
     (if truthy (model reading) then IdentityKey (generate (the (model reading)))
      else if truthy (uuid reading) then IdentityKey (generate (the (uuid reading)))
      else Rejected)"
  by (simp add: resolve_def deviceUniqueId_def truthy_def split: option.splits)

text \<open>
  Claim C1 as stated fails: for a reading with both hints the key is made from the model
  hint, not from the normalized identity hint (\<open>generate\<close> is the identity here).
\<close>

theorem resolver_identity_hint_counterexample:
  "deviceUniqueId \<lparr>uuid = Some ''a4c138000001'', address = ''a4:c1:38:00:00:01'',
                    model = Some ''GVH5075_1234''\<rparr> = Some ''GVH5075_1234''
   \<and> resolve id \<lparr>uuid = Some ''a4c138000001'', address = ''a4:c1:38:00:00:01'',
                  model = Some ''GVH5075_1234''\<rparr> = IdentityKey ''GVH5075_1234''
   \<and> resolve id \<lparr>uuid = Some ''a4c138000001'', address = ''a4:c1:38:00:00:01'',
                  model = Some ''GVH5075_1234''\<rparr> \<noteq> IdentityKey (id (sanitize ''a4c138000001''))"
  by (simp add: resolve_def deviceUniqueId_def truthy_def sanitize_def trim_def is_ws_def)

subsection \<open>C2: normalization\<close>

text \<open>
  Claim C2, as amended. On a string with at most one underscore, which is neither the first
  nor the last character of the trimmed string, \<open>sanitize\<close> gives the trimmed string
  without its underscore, and it is idempotent there. The identity key is not made from
  the sanitized value: a non-empty model hint goes to \<open>generate\<close> as it is.
\<close>

theorem sanitize_single_underscore:
  assumes "count_list s (CHR ''_'') \<le> 1"
    and "take 1 (trim s) \<noteq> ''_''" and "take 1 (rev (trim s)) \<noteq> ''_''"
  shows "sanitize s = filter (\<lambda>c. c \<noteq> CHR ''_'') (trim s)
     \<and> trim (sanitize s) = sanitize s
     \<and> sanitize (sanitize s) = sanitize s
     \<and> (s \<noteq> [] \<longrightarrow>
          resolve generate (reading\<lparr>model := Some s\<rparr>) = IdentityKey (generate s))"
  using sanitize_fixed [OF assms]
  by (simp add: resolve_def deviceUniqueId_def truthy_def)

text \<open>
  The amended claim C2 at the raw value \<open>" ABC_123 "\<close>: it sanitizes to \<open>"ABC123"\<close>, as
  \<open>"ABC_123"\<close> does, and its key is made from the raw value.
\<close>

theorem sanitize_single_underscore_witness:
  "count_list '' ABC_123 '' (CHR ''_'') \<le> 1
   \<and> take 1 (trim '' ABC_123 '') \<noteq> ''_'' \<and> take 1 (rev (trim '' ABC_123 '')) \<noteq> ''_''
   \<and> sanitize '' ABC_123 '' = ''ABC123'' \<and> sanitize ''ABC_123'' = ''ABC123''
   \<and> sanitize (sanitize '' ABC_123 '') = sanitize '' ABC_123 ''
   \<and> resolve id \<lparr>uuid = None, address = ''a4:c1:38:00:00:01'', model = Some '' ABC_123 ''\<rparr>
       = IdentityKey '' ABC_123 ''"
  using sanitize_single_underscore [of "'' ABC_123 ''" id
      "\<lparr>uuid = None, address = ''a4:c1:38:00:00:01'', model = None\<rparr>"]
  by (simp add: sanitize_def trim_def is_ws_def)

text \<open>
  Claim C2 as stated fails twice. \<open>sanitize\<close> is not idempotent on \<open>"A__B"\<close>, since only
  the first underscore goes. And the raw values \<open>"ABC_123"\<close> and \<open>" ABC_123 "\<close>, which
  sanitize to the same string, are handed to \<open>generate\<close> as they are, neither as
  \<open>"ABC123"\<close>; where \<open>generate\<close> is the identity they resolve to two keys.
\<close>

theorem normalization_counterexample:
  "sanitize (sanitize ''A__B'') \<noteq> sanitize ''A__B''
   \<and> sanitize ''ABC_123'' = sanitize '' ABC_123 ''
   \<and> deviceUniqueId \<lparr>uuid = None, address = ''a4:c1:38:00:00:01'', model = Some ''ABC_123''\<rparr>
       = Some ''ABC_123''
   \<and> deviceUniqueId \<lparr>uuid = None, address = ''a4:c1:38:00:00:01'', model = Some '' ABC_123 ''\<rparr>
       = Some '' ABC_123 ''
   \<and> resolve id \<lparr>uuid = None, address = ''a4:c1:38:00:00:01'', model = Some ''ABC_123''\<rparr>
       = IdentityKey ''ABC_123''
   \<and> resolve id \<lparr>uuid = None, address = ''a4:c1:38:00:00:01'', model = Some '' ABC_123 ''\<rparr>
       = IdentityKey '' ABC_123 ''"
  by (simp add: sanitize_def trim_def is_ws_def resolve_def deviceUniqueId_def truthy_def)

subsection \<open>C3: timers that fire after the shutdown event\<close>

text \<open>
  Claim C3 fails on the code. With a scan duration of 1000 and a cooldown of 500, the
  platform is shut down while its cooldown timer is armed. When that timer fires, the
  closure of line 220 clears \<open>isCooldown\<close> and runs \<open>startScanCycle\<close>: the radio is started,
  the callbacks are registered and a scan-duration timer is armed. When that one fires in
  turn, the closure of line 108 sets \<open>isCooldown\<close> and asks the radio to stop. Neither
  closure tests \<open>platformStatus\<close>; only the stall-recovery closure of line 230 does.
\<close>

theorem timers_act_after_shutdown:
  "(let cfg = \<lparr>name = ''Govee'', batteryThreshold = Some 25, debug = False,
               humidityOffset = Some 0, scanDuration = 1000, cooldownDuration = 500,
               IgnoreDeviceNames = []\<rparr>
    in case run id [DidFinishLaunching, TimerFired 0, ScanStopped, Shutdown] (constructor cfg) of
         Inl e \<Rightarrow> False
       | Inr this \<Rightarrow>
           platformStatus this = Some SHUTDOWN
           \<and> isCooldown this = Some True
           \<and> timers this = [(500, CooldownElapsed)]
           \<and> (case step id (TimerFired 0) this of
                Inl e \<Rightarrow> False
              | Inr this' \<Rightarrow>
                  platformStatus this' = Some SHUTDOWN
                  \<and> isCooldown this' = Some False
                  \<and> timers this' = [(1000, ScanDurationElapsed)]
                  \<and> calls this' = calls this @
                      [GoveeStartDiscovery, GoveeRegisterScanStart, GoveeRegisterScanStop,
                       Log LDebug ''Stop scanning after '' [ANumber 1000]]
                  \<and> (case step id (TimerFired 0) this' of
                       Inl e \<Rightarrow> False
                     | Inr this'' \<Rightarrow>
                         platformStatus this'' = Some SHUTDOWN
                         \<and> isCooldown this'' = Some True
                         \<and> calls this'' = calls this' @
                             [Log LDebug ''Start cooldown for '' [ANumber 500],
                              GoveeStopDiscovery])))"
  by (simp add: eval_defs)

subsection \<open>C4: one Device Handler for each key\<close>

text \<open>
  Claim C4, as amended. Take a platform reached from its constructor by any events, and
  two readings to which the resolver gives the same key (made from the raw hint). Once
  routing the first has returned, the key is in the cache; routing the second returns, and
  all it does is log the reading and call \<open>updateReading\<close> on the handler already cached:
  no handler is constructed and the host's registry is not called. Exactly one handler has
  been constructed for the key, and that stays so, with the key still cached, after any
  further events.
\<close>

theorem repeated_reading_updates_handler:
  assumes "run generate es (constructor cfg) = Inr this"
    and "resolve generate r1 = IdentityKey key"
    and "resolve generate r2 = IdentityKey key"
    and "goveeDiscoveredReading generate r1 this = Inr this1"
  shows "\<exists>h. discoveryCache this1 key = Some h
      \<and> goveeDiscoveredReading generate r2 this1 =
          Inr (this1\<lparr>discoveryCache := (discoveryCache this1)(key \<mapsto> updateReading h r2),
                    calls := calls this1 @
                      [Log LDebug ''Govee reading'' [AReading r2], UpdateReading key r2]\<rparr>)
      \<and> handlersBuilt key (calls this1) = 1
      \<and> (\<forall>evs this'. run generate evs this1 = Inr this' \<longrightarrow>
            handlersBuilt key (calls this') = 1 \<and> discoveryCache this' key \<noteq> None)"
proof -
  have inv: "oneHandlerPerKey this"
    using run_keeps_invariant [OF assms(1) constructor_invariant] .
  have inv1: "oneHandlerPerKey this1"
    using routing_keeps_invariant [OF assms(4) inv] .
  from routing_caches_key [OF assms(4) assms(2)]
  obtain h where h: "discoveryCache this1 key = Some h" by auto
  have built: "handlersBuilt key (calls this1) = 1"
    using inv1 h by (simp add: oneHandlerPerKey_def)
  have later: "handlersBuilt key (calls this') = 1 \<and> discoveryCache this' key \<noteq> None"
    if r: "run generate evs this1 = Inr this'" for evs this'
  proof -
    from h have "discoveryCache this1 key \<noteq> None" by simp
    from run_keeps_cached [OF r this] have c: "discoveryCache this' key \<noteq> None" .
    from run_keeps_invariant [OF r inv1] c show ?thesis by (simp add: oneHandlerPerKey_def)
  qed
  from routed_updated [OF assms(3) h] h built later show ?thesis by blast
qed

text \<open>
  The amended claim C4 for two readings of one model, the second followed by a scan stop
  and the first again: one handler, which has received both later readings.
\<close>

theorem repeated_reading_updates_handler_witness:
  "(let cfg = \<lparr>name = ''Govee'', batteryThreshold = Some 25, debug = False,
               humidityOffset = Some 0, scanDuration = 0, cooldownDuration = 0,
               IgnoreDeviceNames = []\<rparr>;
        r1 = \<lparr>uuid = Some ''a4c138000001'', address = ''a4:c1:38:00:00:01'',
              model = Some ''GVH5075_1234''\<rparr>;
        r2 = \<lparr>uuid = None, address = ''a4:c1:38:00:00:02'', model = Some ''GVH5075_1234''\<rparr>
    in resolve id r1 = IdentityKey ''GVH5075_1234''
       \<and> resolve id r2 = IdentityKey ''GVH5075_1234''
       \<and> (case run id [DidFinishLaunching, Reading r1] (constructor cfg) of
            Inl e \<Rightarrow> False
          | Inr this1 \<Rightarrow>
              handlersBuilt ''GVH5075_1234'' (calls this1) = 1
              \<and> (case run id [Reading r2, ScanStopped, Reading r1] this1 of
                   Inl e \<Rightarrow> False
                 | Inr this' \<Rightarrow>
                     handlersBuilt ''GVH5075_1234'' (calls this') = 1
                     \<and> map_option h_updates (discoveryCache this' ''GVH5075_1234'') =
                         Some [r2, r1])))"
proof -
  let ?cfg = "\<lparr>name = ''Govee'', batteryThreshold = Some 25, debug = False,
               humidityOffset = Some 0, scanDuration = 0, cooldownDuration = 0,
               IgnoreDeviceNames = []\<rparr>"
  let ?r1 = "\<lparr>uuid = Some ''a4c138000001'', address = ''a4:c1:38:00:00:01'',
              model = Some ''GVH5075_1234''\<rparr>"
  let ?r2 = "\<lparr>uuid = None, address = ''a4:c1:38:00:00:02'', model = Some ''GVH5075_1234''\<rparr>"
  let ?s0 = "didFinishLaunching (constructor ?cfg)"
  let ?s1 = "projr (goveeDiscoveredReading id ?r1 ?s0)"
  have reach: "run id [DidFinishLaunching] (constructor ?cfg) = Inr ?s0" by simp
  have k1: "resolve id ?r1 = IdentityKey ''GVH5075_1234''"
    and k2: "resolve id ?r2 = IdentityKey ''GVH5075_1234''"
    by (simp_all add: resolve_def deviceUniqueId_def truthy_def)
  have routed: "goveeDiscoveredReading id ?r1 ?s0 = Inr ?s1"
    by (simp add: eval_defs)
  from repeated_reading_updates_handler [OF reach k1 k2 routed]
  have "handlersBuilt ''GVH5075_1234'' (calls ?s1) = 1" by blast
  then show ?thesis
    by (simp add: eval_defs)
qed

text \<open>
  Claim C4 as stated fails. The model hints \<open>"ABC_123"\<close> and \<open>" ABC_123 "\<close> normalize to the
  same string, yet routing one reading of each constructs two handlers, and neither handler
  receives an update. And two readings that carry an identity hint and no model resolve to
  the same key, yet routing the first for a device that is new raises a TypeError
  (\<open>sanitize\<close> of an absent model) before any handler is constructed.
\<close>

theorem raw_keys_counterexample:
  "(let cfg = \<lparr>name = ''Govee'', batteryThreshold = Some 25, debug = False,
               humidityOffset = Some 0, scanDuration = 0, cooldownDuration = 0,
               IgnoreDeviceNames = []\<rparr>;
        r1 = \<lparr>uuid = None, address = ''a4:c1:38:00:00:01'', model = Some ''ABC_123''\<rparr>;
        r2 = \<lparr>uuid = None, address = ''a4:c1:38:00:00:01'', model = Some '' ABC_123 ''\<rparr>;
        r3 = \<lparr>uuid = Some ''a4c138000003'', address = ''a4:c1:38:00:00:03'', model = None\<rparr>
    in sanitize ''ABC_123'' = sanitize '' ABC_123 ''
       \<and> (case run id [DidFinishLaunching, Reading r1, Reading r2] (constructor cfg) of
            Inl e \<Rightarrow> False
          | Inr this \<Rightarrow>
              handlersBuilt ''ABC_123'' (calls this) = 1
              \<and> handlersBuilt '' ABC_123 '' (calls this) = 1
              \<and> map_option h_updates (discoveryCache this ''ABC_123'') = Some []
              \<and> map_option h_updates (discoveryCache this '' ABC_123 '') = Some [])
       \<and> resolve id r3 = IdentityKey ''a4c138000003''
       \<and> run id [DidFinishLaunching, Reading r3] (constructor cfg) = Inl TypeError)"
  by (simp add: eval_defs)

subsection \<open>C5: ignored device names\<close>

text \<open>
  Claim C5 fails on the code: \<open>IgnoreDeviceNames\<close> is declared in the configuration schema
  and never read. A reading whose device name is listed, raw and sanitized, is routed like
  any other: an accessory is created, a handler is constructed and cached, and the accessory
  is registered with the host.
\<close>

theorem ignored_device_name_is_registered:
  "(let cfg = \<lparr>name = ''Govee'', batteryThreshold = Some 25, debug = False,
               humidityOffset = Some 0, scanDuration = 0, cooldownDuration = 0,
               IgnoreDeviceNames = [''GVH5075_1234'', ''GVH50751234'']\<rparr>;
        reading = \<lparr>uuid = Some ''a4c138000001'', address = ''a4:c1:38:00:00:01'',
                   model = Some ''GVH5075_1234''\<rparr>;
        accessory = \<lparr>displayName = ''GVH50751234'', UUID = ''GVH5075_1234'',
                     context_device = Some \<lparr>ctx_address = ''a4:c1:38:00:00:01'',
                       ctx_model = ''GVH50751234'', ctx_uuid = Some ''a4c138000001''\<rparr>,
                     context_batteryThreshold = Some 25, context_humidityOffset = Some 0\<rparr>
    in case run id [DidFinishLaunching] (constructor cfg) of
         Inl e \<Rightarrow> False
       | Inr this \<Rightarrow>
           (case step id (Reading reading) this of
              Inl e \<Rightarrow> False
            | Inr this' \<Rightarrow>
                discoveryCache this' ''GVH5075_1234'' =
                  Some (new_GoveePlatformAccessory accessory reading)
                \<and> calls this' = calls this @
                    [Log LDebug ''Govee reading'' [AReading reading],
                     Log LInfo ''Adding new accessory:'' [AString ''GVH50751234''],
                     NewPlatformAccessory ''GVH50751234'' ''GVH5075_1234'',
                     NewGoveePlatformAccessory accessory reading,
                     RegisterPlatformAccessories [accessory]]))"
  by (simp add: eval_defs)

subsection \<open>C6: readings without any hint\<close>

text \<open>
  Claim C6. A reading whose identity hint and model hint are both absent or empty is
  rejected; routing it returns the platform as it was but for two log lines, the second an
  error: the cache, the restored accessories and the timers are untouched, and no call
  reaches a Device Handler or the host's registry.
\<close>

theorem unidentifiable_reading_dropped:
  assumes "\<not> truthy (uuid reading)" and "\<not> truthy (model reading)"
  shows "resolve generate reading = Rejected
     \<and> goveeDiscoveredReading generate reading this =
         Inr (this\<lparr>calls := calls this @
           [Log LDebug ''Govee reading'' [AReading reading],
            Log LError ''device missing unique identifier. Govee reading: ''
              [AReading reading]]\<rparr>)"
proof -
  from assms have "resolve generate reading = Rejected"
    by (simp add: resolve_def deviceUniqueId_def truthy_def split: option.splits)
  then show ?thesis by (simp add: routed_rejected)
qed

text \<open>
  Claim C6 at a reading with no identity hint and an empty model hint.
\<close>

theorem unidentifiable_reading_dropped_witness:
  "\<not> truthy (uuid \<lparr>uuid = None, address = ''a4:c1:38:00:00:01'', model = Some ''''\<rparr>)
   \<and> \<not> truthy (model \<lparr>uuid = None, address = ''a4:c1:38:00:00:01'', model = Some ''''\<rparr>)
   \<and> goveeDiscoveredReading id
        \<lparr>uuid = None, address = ''a4:c1:38:00:00:01'', model = Some ''''\<rparr>
        \<lparr>config = \<lparr>name = ''Govee'', batteryThreshold = Some 25, debug = False,
                    humidityOffset = Some 0, scanDuration = 0, cooldownDuration = 0,
                    IgnoreDeviceNames = []\<rparr>,
         accessories = [], platformStatus = Some DID_FINISH_LAUNCHING,
         isCooldown = Some False, discoveryCache = Map.empty, timers = [], calls = []\<rparr>
       = Inr \<lparr>config = \<lparr>name = ''Govee'', batteryThreshold = Some 25, debug = False,
                    humidityOffset = Some 0, scanDuration = 0, cooldownDuration = 0,
                    IgnoreDeviceNames = []\<rparr>,
         accessories = [], platformStatus = Some DID_FINISH_LAUNCHING,
         isCooldown = Some False, discoveryCache = Map.empty, timers = [],
         calls = [Log LDebug ''Govee reading''
                    [AReading \<lparr>uuid = None, address = ''a4:c1:38:00:00:01'', model = Some ''''\<rparr>],
                  Log LError ''device missing unique identifier. Govee reading: ''
                    [AReading \<lparr>uuid = None, address = ''a4:c1:38:00:00:01'', model = Some ''''\<rparr>]]\<rparr>"
  using unidentifiable_reading_dropped [of
      "\<lparr>uuid = None, address = ''a4:c1:38:00:00:01'', model = Some ''''\<rparr>" id
      "\<lparr>config = \<lparr>name = ''Govee'', batteryThreshold = Some 25, debug = False,
                    humidityOffset = Some 0, scanDuration = 0, cooldownDuration = 0,
                    IgnoreDeviceNames = []\<rparr>,
         accessories = [], platformStatus = Some DID_FINISH_LAUNCHING,
         isCooldown = Some False, discoveryCache = Map.empty, timers = [], calls = []\<rparr>"]
  by (simp add: truthy_def)

subsection \<open>C7: a device known from an earlier run\<close>

text \<open>
  Claim C7. When the key of a reading is not in the cache and a restored accessory has it
  as its UUID, routing returns; the first such accessory gets \<open>batteryThreshold\<close> and
  \<open>humidityOffset\<close> from the current configuration, in place, and keeps its name, UUID and
  device context; the host is told through \<open>updatePlatformAccessories\<close>; a handler is
  constructed on that record and the reading, and cached under the key. No accessory is
  created and none is registered: the calls made are exactly the four listed after the
  first log line, and the list of restored accessories keeps its length.
\<close>

theorem known_device_restored:
  assumes "resolve generate reading = IdentityKey key"
    and "discoveryCache this key = None"
    and "find (\<lambda>a. UUID a = key) (accessories this) = Some existing"
  shows
    "(let refreshed = existing\<lparr>context_batteryThreshold := batteryThreshold (config this),
                               context_humidityOffset := humidityOffset (config this)\<rparr>;
          restored = (accessories this)
            [length (takeWhile (\<lambda>a. UUID a \<noteq> key) (accessories this)) := refreshed]
      in goveeDiscoveredReading generate reading this =
           Inr (this\<lparr>accessories := restored,
                  discoveryCache :=
                    (discoveryCache this)(key \<mapsto> new_GoveePlatformAccessory refreshed reading),
                  calls := calls this @
                    [Log LDebug ''Govee reading'' [AReading reading],
                     Log LInfo ''Restoring existing accessory from cache:''
                       [AString (displayName existing)],
                     UpdatePlatformAccessories [refreshed],
                     NewGoveePlatformAccessory refreshed reading]\<rparr>)
         \<and> length restored = length (accessories this)
         \<and> find (\<lambda>a. UUID a = key) restored = Some refreshed
         \<and> UUID refreshed = key
         \<and> displayName refreshed = displayName existing
         \<and> context_device refreshed = context_device existing)"
proof -
  from find_first_index(3) [OF assms(3)] have u: "UUID existing = key" .
  have f: "find (\<lambda>a. UUID a = key) ((accessories this)
            [length (takeWhile (\<lambda>a. \<not> UUID a = key) (accessories this)) :=
               existing\<lparr>context_batteryThreshold := batteryThreshold (config this),
                        context_humidityOffset := humidityOffset (config this)\<rparr>])
       = Some (existing\<lparr>context_batteryThreshold := batteryThreshold (config this),
                        context_humidityOffset := humidityOffset (config this)\<rparr>)"
    by (rule find_update_first [OF assms(3)]) (simp add: u)
  show ?thesis
    using routed_restored [OF assms refl] f u by (simp add: Let_def)
qed

text \<open>
  Claim C7 at a platform that restored one accessory with other settings, and a first
  reading of that device.
\<close>

theorem known_device_restored_witness:
  "(let cfg = \<lparr>name = ''Govee'', batteryThreshold = Some 25, debug = False,
               humidityOffset = Some 2, scanDuration = 0, cooldownDuration = 0,
               IgnoreDeviceNames = []\<rparr>;
        known = \<lparr>displayName = ''GVH50751234'', UUID = ''GVH5075_1234'',
                 context_device = Some \<lparr>ctx_address = ''a4:c1:38:00:00:01'',
                   ctx_model = ''GVH50751234'', ctx_uuid = Some ''a4c138000001''\<rparr>,
                 context_batteryThreshold = Some 10, context_humidityOffset = None\<rparr>;
        reading = \<lparr>uuid = Some ''a4c138000001'', address = ''a4:c1:38:00:00:01'',
                   model = Some ''GVH5075_1234''\<rparr>;
        this = didFinishLaunching (configureAccessory known (constructor cfg))
    in resolve id reading = IdentityKey ''GVH5075_1234''
       \<and> discoveryCache this ''GVH5075_1234'' = None
       \<and> find (\<lambda>a. UUID a = ''GVH5075_1234'') (accessories this) = Some known
       \<and> (case goveeDiscoveredReading id reading this of
            Inl e \<Rightarrow> False
          | Inr this' \<Rightarrow>
              accessories this' =
                [known\<lparr>context_batteryThreshold := Some 25, context_humidityOffset := Some 2\<rparr>]
              \<and> map_option h_accessory (discoveryCache this' ''GVH5075_1234'') =
                  Some (known\<lparr>context_batteryThreshold := Some 25,
                              context_humidityOffset := Some 2\<rparr>)
              \<and> drop (length (calls this)) (calls this') =
                  [Log LDebug ''Govee reading'' [AReading reading],
                   Log LInfo ''Restoring existing accessory from cache:'' [AString ''GVH50751234''],
                   UpdatePlatformAccessories
                     [known\<lparr>context_batteryThreshold := Some 25,
                            context_humidityOffset := Some 2\<rparr>],
                   NewGoveePlatformAccessory
                     (known\<lparr>context_batteryThreshold := Some 25,
                            context_humidityOffset := Some 2\<rparr>) reading]))"
  using known_device_restored [of id
      "\<lparr>uuid = Some ''a4c138000001'', address = ''a4:c1:38:00:00:01'',
        model = Some ''GVH5075_1234''\<rparr>"
      "''GVH5075_1234''"
      "didFinishLaunching (configureAccessory
         \<lparr>displayName = ''GVH50751234'', UUID = ''GVH5075_1234'',
          context_device = Some \<lparr>ctx_address = ''a4:c1:38:00:00:01'',
            ctx_model = ''GVH50751234'', ctx_uuid = Some ''a4c138000001''\<rparr>,
          context_batteryThreshold = Some 10, context_humidityOffset = None\<rparr>
         (constructor \<lparr>name = ''Govee'', batteryThreshold = Some 25, debug = False,
               humidityOffset = Some 2, scanDuration = 0, cooldownDuration = 0,
               IgnoreDeviceNames = []\<rparr>))"
      "\<lparr>displayName = ''GVH50751234'', UUID = ''GVH5075_1234'',
          context_device = Some \<lparr>ctx_address = ''a4:c1:38:00:00:01'',
            ctx_model = ''GVH50751234'', ctx_uuid = Some ''a4c138000001''\<rparr>,
          context_batteryThreshold = Some 10, context_humidityOffset = None\<rparr>"]
  by (simp add: Let_def resolve_def deviceUniqueId_def truthy_def didFinishLaunching_sel
      configureAccessory_def constructor_def emit_def new_GoveePlatformAccessory_def)

subsection \<open>C8: a scan duration of 0\<close>

text \<open>
  Claim C8. With a scan duration of 0, in every state the platform reaches from its
  constructor: \<open>startScanCycle\<close> starts the radio, registers the two callbacks and arms no
  timer; the only timers armed are stall-recovery
  timers; the radio has never been asked to stop; no cooldown is pending; and a scan stop
  while the platform is running arms the stall-recovery timer, with its delay of 5000, and
  nothing else.
\<close>

theorem continuous_scan_never_cools_down:
  assumes "scanDuration cfg = 0"
    and "run generate es (constructor cfg) = Inr this"
  shows "timers (startScanCycle this) = timers this
     \<and> list_all (\<lambda>t. snd t = WaitIntervalElapsed) (timers this)
     \<and> GoveeStopDiscovery \<notin> set (calls this)
     \<and> isCooldown this \<noteq> Some True
     \<and> (\<not> notRunning this \<longrightarrow>
          goveeScanStopped this =
            this\<lparr>timers := timers this @ [(5000, WaitIntervalElapsed)],
                 calls := calls this @ [Log LInfo ''Govee Scan Stopped'' []]\<rparr>)
     \<and> startScanCycle this =
          this\<lparr>calls := calls this @
            [GoveeStartDiscovery, GoveeRegisterScanStart, GoveeRegisterScanStop]\<rparr>"
proof -
  from continuousScan_run [OF assms(2) continuousScan_constructor [OF assms(1)]]
  have c: "continuousScan this" .
  then have "timers (startScanCycle this) = timers this"
    by (simp add: continuousScan_def startScanCycle_sel)
  moreover from c have "startScanCycle this =
          this\<lparr>calls := calls this @
            [GoveeStartDiscovery, GoveeRegisterScanStart, GoveeRegisterScanStop]\<rparr>"
    by (simp add: continuousScan_def startScanCycle_def emit_def Let_def)
  moreover have "goveeScanStopped this =
            this\<lparr>timers := timers this @ [(5000, WaitIntervalElapsed)],
                 calls := calls this @ [Log LInfo ''Govee Scan Stopped'' []]\<rparr>"
    if "\<not> notRunning this"
    using that c
    by (simp add: continuousScan_def goveeScanStopped_def notRunning_def emit_def
        setTimeout_def WAIT_INTERVAL_def Let_def)
  ultimately show ?thesis using c by (simp add: continuousScan_def)
qed

text \<open>
  Claim C8 after the host has finished launching and the radio has reported the scan start.
\<close>

theorem continuous_scan_never_cools_down_witness:
  "(let cfg = \<lparr>name = ''Govee'', batteryThreshold = Some 25, debug = False,
               humidityOffset = Some 0, scanDuration = 0, cooldownDuration = 500,
               IgnoreDeviceNames = []\<rparr>
    in scanDuration cfg = 0
       \<and> (case run id [DidFinishLaunching, ScanStarted] (constructor cfg) of
            Inl e \<Rightarrow> False
          | Inr this \<Rightarrow>
              \<not> notRunning this \<and> timers this = []
              \<and> isCooldown this = Some False
              \<and> GoveeStopDiscovery \<notin> set (calls this)
              \<and> timers (goveeScanStopped this) = [(5000, WaitIntervalElapsed)]))"
proof -
  let ?cfg = "\<lparr>name = ''Govee'', batteryThreshold = Some 25, debug = False,
               humidityOffset = Some 0, scanDuration = 0, cooldownDuration = 500,
               IgnoreDeviceNames = []\<rparr>"
  let ?s = "goveeScanStarted (didFinishLaunching (constructor ?cfg))"
  have zero: "scanDuration ?cfg = 0" by simp
  have reach: "run id [DidFinishLaunching, ScanStarted] (constructor ?cfg) = Inr ?s" by simp
  have running: "\<not> notRunning ?s"
    by (simp add: notRunning_def goveeScanStarted_def emit_sel didFinishLaunching_sel)
  from continuous_scan_never_cools_down [OF zero reach] running
  have "GoveeStopDiscovery \<notin> set (calls ?s)"
    and "timers (goveeScanStopped ?s) = timers ?s @ [(5000, WaitIntervalElapsed)]"
    by simp_all
  then show ?thesis
    by (simp add: Let_def notRunning_def goveeScanStarted_def emit_sel didFinishLaunching_sel
        constructor_def)
qed

subsection \<open>C9: recovery from a stall\<close>

text \<open>
  Claim C9. When the scan stops while the platform is running and no cooldown is pending,
  \<open>goveeScanStopped\<close> logs the stop and arms one timer with the delay 5000, whatever the
  configuration is. When that timer fires, in any later state, it does nothing if the
  platform is not running; otherwise it logs a warning and a notice and calls
  \<open>GoveeStartDiscovery\<close>, and does not register the scan-start and scan-stop callbacks.
\<close>

theorem stall_recovery_fixed_delay:
  assumes "\<not> notRunning this" and "isCooldown this \<noteq> Some True"
  shows "goveeScanStopped this =
           this\<lparr>timers := timers this @ [(5000, WaitIntervalElapsed)],
                calls := calls this @ [Log LInfo ''Govee Scan Stopped'' []]\<rparr>
     \<and> timers (goveeScanStopped (this\<lparr>config := cfg\<rparr>)) =
         timers this @ [(5000, WaitIntervalElapsed)]
     \<and> fire WaitIntervalElapsed later =
         (if notRunning later then later
          else later\<lparr>calls := calls later @
                 [Log LWarn ''Govee discovery stopped while Homebridge is running.'' [],
                  Log LInfo ''Restart Discovery'' [],
                  GoveeStartDiscovery]\<rparr>)"
  using assms
  by (simp add: goveeScanStopped_def notRunning_def emit_def setTimeout_def WAIT_INTERVAL_def
      Let_def)

text \<open>
  Claim C9 after the host has finished launching with a scan duration of 1000: the recovery
  timer is armed with 5000, restarts the radio when it fires, and does nothing when the
  platform has been shut down in between.
\<close>

theorem stall_recovery_fixed_delay_witness:
  "(let this = didFinishLaunching (constructor
         \<lparr>name = ''Govee'', batteryThreshold = Some 25, debug = False,
          humidityOffset = Some 0, scanDuration = 1000, cooldownDuration = 500,
          IgnoreDeviceNames = []\<rparr>)
    in \<not> notRunning this \<and> isCooldown this \<noteq> Some True
       \<and> timers (goveeScanStopped this) =
           [(1000, ScanDurationElapsed), (5000, WaitIntervalElapsed)]
       \<and> calls (fire WaitIntervalElapsed (goveeScanStopped this)) =
           calls this @
             [Log LInfo ''Govee Scan Stopped'' [],
              Log LWarn ''Govee discovery stopped while Homebridge is running.'' [],
              Log LInfo ''Restart Discovery'' [],
              GoveeStartDiscovery]
       \<and> fire WaitIntervalElapsed (shutdown (goveeScanStopped this)) =
           shutdown (goveeScanStopped this))"
proof -
  let ?cfg = "\<lparr>name = ''Govee'', batteryThreshold = Some 25, debug = False,
          humidityOffset = Some 0, scanDuration = 1000, cooldownDuration = 500,
          IgnoreDeviceNames = []\<rparr>"
  let ?s = "didFinishLaunching (constructor ?cfg)"
  have running: "\<not> notRunning ?s" and pending: "isCooldown ?s \<noteq> Some True"
    by (simp_all add: notRunning_def didFinishLaunching_sel)
  have t: "timers ?s = [(1000, ScanDurationElapsed)]"
    by (simp add: didFinishLaunching_sel constructor_def)
  note fixed = stall_recovery_fixed_delay [OF running pending]
  from fixed [of ?cfg "goveeScanStopped ?s"] fixed [of ?cfg "shutdown (goveeScanStopped ?s)"]
  show ?thesis
    by (simp add: eval_defs)
qed

subsection \<open>C10: routing and the running flag\<close>




end
